theory Spec2Isabelle
  imports Main
begin

section \<open>The failed-download ledger of asmr-downloader (package utils)\<close>

text \<open>
  The theory embeds the failure-tracking and retry code of package \<open>utils\<close>:
  \<open>DownloadFile\<close>, \<open>NewFileDownloader\<close>, \<open>NewFixFileDownloader\<close>,
  \<open>FixBrokenDownloadFile\<close>, \<open>CheckIfNeedFixBrokenDownloadFile\<close> and \<open>CopyFile\<close>.

  The Go code works on the file system, the network, the clock and a webhook. They are
  made explicit: a \<open>world\<close> record is passed through every function and returned
  updated, and an \<open>env\<close> record holds what the outside answers (how the n-th fetch
  ends, what the clock shows, which file operations are refused). Every theorem below
  holds for each \<open>env\<close>, unless it names one.

  Bounds of the model: paths are compared as strings (they are taken to be in
  \<open>filepath.Clean\<close> and Unicode NFC form already, so \<open>FileOrDirExists\<close> is a
  lookup); file permissions, log output and \<open>time.Sleep\<close> are left out; reading an
  open file never fails before its end.
\<close>

subsection \<open>Errors, outcomes and the world\<close>

datatype io_error =
    OpenError | CreateError | CopyError | SyncError | StatError | ChmodError | CloseError
  | RequestError | DoError | GotError string

text \<open>How one call of \<open>DownloadFile\<close> ends, by the statement that returns:
  \<open>http.NewRequest\<close> fails, \<open>client.Do\<close> fails, \<open>os.Create\<close> fails,
  \<open>io.Copy\<close> fails after writing a part of the body, or the body is copied.\<close>

datatype dl_outcome =
    RequestFails | DoFails | CreateFails | CopyFails string | Copied string

text \<open>How one call of \<open>got.Download\<close> (an external library) ends: the body is
  stored, or it fails with an error text, leaving nothing new or a fragment.\<close>

datatype got_outcome = GotDone string | GotFails string "string option"

text \<open>The messages handed to \<open>log.DiscordWebhook.Send\<close>.\<close>

datatype notice =
    FailedNotice string io_error
  | BlockedNotice string
  | RetryNotice int

record world =
  files :: "string \<rightharpoonup> string"
  dirs :: "string set"
  calls :: nat
  sent :: "notice list"

record env =
  fetch :: "nat \<Rightarrow> string \<Rightarrow> dl_outcome"
  got_fetch :: "nat \<Rightarrow> string \<Rightarrow> got_outcome"
  clock :: "nat \<Rightarrow> string"
  mkdir_ok :: "string \<Rightarrow> bool"
  remove_ok :: "string \<Rightarrow> bool"
  copy_fault :: "io_error option"
  copy_written :: nat
  truncate_ok :: bool

definition FailedDownloadFileName :: string where
  "FailedDownloadFileName = ''failed-download.txt''"

definition marker1015 :: string where
  "marker1015 = ''error code: 1015''"

definition LF :: char where
  "LF = CHR 0x0A"

definition CR :: char where
  "CR = CHR 0x0D"

subsection \<open>Library functions the code calls\<close>

text \<open>\<open>strings.Split s sep\<close> for a one-character separator: one field more than
  there are separators, the empty string giving one empty field.\<close>

fun Split :: "string \<Rightarrow> char \<Rightarrow> string list" where
  "Split [] sep = [[]]"
| "Split (c # cs) sep =
     (if c = sep then [] # Split cs sep
      else (case Split cs sep of
              [] \<Rightarrow> [[c]]
            | f # fs \<Rightarrow> (c # f) # fs))"

text \<open>\<open>strings.Trim s cutset\<close>: the characters of the cutset are dropped at both ends.\<close>

definition Trim :: "string \<Rightarrow> string \<Rightarrow> string" where
  "Trim s cutset =
     rev (dropWhile (\<lambda>c. c \<in> set cutset) (rev (dropWhile (\<lambda>c. c \<in> set cutset) s)))"

text \<open>\<open>strings.Contains s sub\<close>.\<close>

fun has_prefix :: "string \<Rightarrow> string \<Rightarrow> bool" where
  "has_prefix s [] = True"
| "has_prefix [] (p # ps) = False"
| "has_prefix (c # cs) (p # ps) = (c = p \<and> has_prefix cs ps)"

fun Contains :: "string \<Rightarrow> string \<Rightarrow> bool" where
  "Contains [] sub = (sub = [])"
| "Contains (c # cs) sub = (has_prefix (c # cs) sub \<or> Contains cs sub)"

text \<open>\<open>filepath.Dir\<close> and \<open>filepath.Join\<close> on clean paths.\<close>

definition filepath_Dir :: "string \<Rightarrow> string" where
  "filepath_Dir path =
     (let d = rev (dropWhile (\<lambda>c. c \<noteq> CHR ''/'') (rev path));
          t = rev (dropWhile (\<lambda>c. c = CHR ''/'') (rev d))
      in if d = [] then ''.'' else if t = [] then ''/'' else t)"

definition filepath_Join :: "string \<Rightarrow> string \<Rightarrow> string" where
  "filepath_Join a b = (if a = [] then b else if b = [] then a else a @ ''/'' @ b)"

text \<open>\<open>bufio.Reader.ReadLine\<close> on the unread rest of a file, with the reader's
  default buffer of 4096 bytes: a line ends at the first newline when that lies within
  the buffer, and loses the newline and a carriage return before it; a longer line comes
  in pieces of the buffer's size (a carriage return at the end of a piece is left for the
  next call); the unterminated end of the file is the last line; \<open>None\<close> is
  \<open>io.EOF\<close>. The result is the line and what is left to read.\<close>

definition bufio_size :: nat where
  "bufio_size = 4096"

definition drop_cr :: "string \<Rightarrow> string" where
  "drop_cr line = (if line \<noteq> [] \<and> last line = CR then butlast line else line)"

definition ReadLine :: "string \<Rightarrow> (string \<times> string) option" where
  "ReadLine s =
     (if s = [] then None
      else let k = length (takeWhile (\<lambda>c. c \<noteq> LF) s) in
        if k < length s \<and> k < bufio_size then Some (drop_cr (take k s), drop (Suc k) s)
        else if bufio_size \<le> length s then
          (if s ! (bufio_size - 1) = CR
           then Some (take (bufio_size - 1) s, drop (bufio_size - 1) s)
           else Some (take bufio_size s, drop bufio_size s))
        else Some (s, []))"

text \<open>The read loop of \<open>FixBrokenDownloadFile\<close> and of
  \<open>CheckIfNeedFixBrokenDownloadFile\<close>: every line that is not empty once trimmed of
  carriage returns and newlines is appended, untrimmed, to \<open>resultLine\<close>.\<close>

function read_result_lines :: "string \<Rightarrow> string list" where
  "read_result_lines s =
     (case ReadLine s of
        None \<Rightarrow> []
      | Some (line, rest) \<Rightarrow>
          (if length (Trim line [CR, LF]) > 0 then line # read_result_lines rest
           else read_result_lines rest))"
  by pat_completeness auto
termination
  by (relation "measure length")
     (auto simp: ReadLine_def Let_def bufio_size_def split: if_splits)

declare read_result_lines.simps [simp del]

subsection \<open>Files\<close>

definition FileOrDirExists :: "world \<Rightarrow> string \<Rightarrow> bool" where
  "FileOrDirExists w path = (files w path \<noteq> None \<or> path \<in> dirs w)"

text \<open>\<open>os.ReadFile\<close>: the content, or \<open>None\<close> for an error.\<close>

definition os_ReadFile :: "world \<Rightarrow> string \<Rightarrow> string option" where
  "os_ReadFile w path = files w path"

text \<open>\<open>os.Remove\<close> of a file: the new world, and whether it succeeded.\<close>

definition os_Remove :: "env \<Rightarrow> world \<Rightarrow> string \<Rightarrow> world \<times> bool" where
  "os_Remove e w path =
     (if files w path \<noteq> None \<and> remove_ok e path
      then (w\<lparr>files := (files w)(path := None)\<rparr>, True)
      else (w, False))"

text \<open>\<open>os.MkdirAll\<close>.\<close>

definition os_MkdirAll :: "env \<Rightarrow> world \<Rightarrow> string \<Rightarrow> world \<times> bool" where
  "os_MkdirAll e w dir =
     (if mkdir_ok e dir then (w\<lparr>dirs := insert dir (dirs w)\<rparr>, True) else (w, False))"

definition GetCurrentDateTime :: "env \<Rightarrow> world \<Rightarrow> string" where
  "GetCurrentDateTime e w = clock e (calls w)"

definition Send :: "world \<Rightarrow> notice \<Rightarrow> world" where
  "Send w n = w\<lparr>sent := sent w @ [n]\<rparr>"

subsection \<open>CheckIfNeedFixBrokenDownloadFile\<close>

definition CheckIfNeedFixBrokenDownloadFile :: "world \<Rightarrow> world \<times> bool" where
  "CheckIfNeedFixBrokenDownloadFile w =
     (case files w FailedDownloadFileName of
        None \<Rightarrow> (w, False)
      | Some content \<Rightarrow> (w, length (read_result_lines content) \<noteq> 0))"

subsection \<open>DownloadFile\<close>

text \<open>One fetch to disk. The world counts the fetches; the environment says how the
  n-th one ends. \<open>os.Create\<close> empties the destination before the body is copied, so a
  copy that fails leaves what it wrote so far.\<close>

definition DownloadFile :: "env \<Rightarrow> world \<Rightarrow> string \<Rightarrow> string \<Rightarrow> world \<times> io_error option" where
  "DownloadFile e w storePath fileUrl =
     (let w1 = w\<lparr>calls := Suc (calls w)\<rparr> in
      case fetch e (calls w) fileUrl of
        RequestFails \<Rightarrow> (w1, Some RequestError)
      | DoFails \<Rightarrow> (w1, Some DoError)
      | CreateFails \<Rightarrow> (w1, Some CreateError)
      | CopyFails part \<Rightarrow> (w1\<lparr>files := (files w1)(storePath \<mapsto> part)\<rparr>, Some CopyError)
      | Copied body \<Rightarrow> (w1\<lparr>files := (files w1)(storePath \<mapsto> body)\<rparr>, None))"

text \<open>\<open>got.Download\<close>, the library call of the first pass.\<close>

definition got_Download :: "env \<Rightarrow> world \<Rightarrow> string \<Rightarrow> string \<Rightarrow> world \<times> io_error option" where
  "got_Download e w fileUrl storePath =
     (let w1 = w\<lparr>calls := Suc (calls w)\<rparr> in
      case got_fetch e (calls w) fileUrl of
        GotDone body \<Rightarrow> (w1\<lparr>files := (files w1)(storePath \<mapsto> body)\<rparr>, None)
      | GotFails msg None \<Rightarrow> (w1, Some (GotError msg))
      | GotFails msg (Some part) \<Rightarrow>
          (w1\<lparr>files := (files w1)(storePath \<mapsto> part)\<rparr>, Some (GotError msg)))"

definition error_text :: "io_error \<Rightarrow> string" where
  "error_text err = (case err of GotError msg \<Rightarrow> msg | _ \<Rightarrow> [])"

text \<open>A write through the handle \<open>FailedDownloadFile\<close>, which \<open>init\<close> opened for
  appending (creating the file).\<close>

definition ledger_append :: "world \<Rightarrow> string \<Rightarrow> world" where
  "ledger_append w logStr =
     w\<lparr>files := (files w)(FailedDownloadFileName \<mapsto>
        (case files w FailedDownloadFileName of None \<Rightarrow> [] | Some old \<Rightarrow> old) @ logStr)\<rparr>"

subsection \<open>NewFileDownloader\<close>

text \<open>The task returned by \<open>NewFileDownloader url path filename\<close>, run in a world.
  The second component is the task's \<open>error\<close> result (\<open>None\<close> is \<open>nil\<close>).\<close>

definition NewFileDownloader ::
  "env \<Rightarrow> string \<Rightarrow> string \<Rightarrow> string \<Rightarrow> world \<Rightarrow> world \<times> io_error option" where
  "NewFileDownloader e url path filename w =
     (let fileUrl = url;
          storePath = filepath_Join path filename
      in case got_Download e w fileUrl storePath of
           (w1, None) \<Rightarrow> (w1, None)
         | (w1, Some err0) \<Rightarrow>
             (case (if Contains (error_text err0) ''Content-Length''
                    then DownloadFile e w1 storePath fileUrl
                    else (w1, Some err0)) of
                (w2, None) \<Rightarrow> (w2, None)
              | (w2, Some err) \<Rightarrow>
                  (let w3 = Send w2 (FailedNotice storePath err);
                       logStr = GetCurrentDateTime e w3 @ ''|'' @ storePath @ ''|'' @ fileUrl @ [LF];
                       w4 = ledger_append w3 logStr;
                       w5 = fst (os_Remove e w4 storePath)
                   in (w5, None))))"

subsection \<open>NewFixFileDownloader\<close>

text \<open>The function from its call of \<open>DownloadFile\<close> on (the \<open>nil\<close> error it always
  returns is left out): a failed fetch appends a record to \<open>resultLines\<close>; so does a
  fetch that stored the 1015 page.\<close>

definition fix_download :: "env \<Rightarrow> world \<Rightarrow> string \<Rightarrow> string \<Rightarrow> string list \<Rightarrow> world \<times> string list" where
  "fix_download e w url storePath resultLines =
     (case DownloadFile e w storePath url of
        (w1, Some err) \<Rightarrow>
          (let w2 = Send w1 (FailedNotice storePath err);
               logStr = GetCurrentDateTime e w2 @ ''|'' @ storePath @ ''|'' @ url
           in (w2, resultLines @ [logStr]))
      | (w1, None) \<Rightarrow>
          (case os_ReadFile w1 storePath of
             None \<Rightarrow> (w1, resultLines)
           | Some content \<Rightarrow>
               if content = marker1015
               then (let w2 = Send w1 (BlockedNotice storePath)
                     in (w2, resultLines @ [GetCurrentDateTime e w2 @ ''|'' @ storePath @ ''|'' @ url]))
               else (w1, resultLines)))"

text \<open>A \<open>nil\<close> slice is the empty list: \<open>len\<close> and \<open>append\<close> do not tell them apart.\<close>

definition NewFixFileDownloader ::
  "env \<Rightarrow> world \<Rightarrow> string \<Rightarrow> string \<Rightarrow> string list \<Rightarrow> world \<times> string list" where
  "NewFixFileDownloader e w url storePath resultLines =
     (case (if \<not> FileOrDirExists w storePath
            then os_MkdirAll e w (filepath_Dir storePath)
            else (w, True)) of
        (w1, False) \<Rightarrow> (w1, [])
      | (w1, True) \<Rightarrow>
          (case os_ReadFile w1 storePath of
             Some content \<Rightarrow>
               if content = marker1015
               then fix_download e (fst (os_Remove e w1 storePath)) url storePath resultLines
               else (w1, resultLines)
           | None \<Rightarrow> fix_download e w1 url storePath resultLines))"

subsection \<open>CopyFile\<close>

text \<open>The environment may refuse one step of the copy: opening the source, creating
  the destination, the copy itself (a part is written), or a later step (\<open>Sync\<close>,
  \<open>Stat\<close>, \<open>Chmod\<close>, the deferred \<open>Close\<close>), when the destination is complete.\<close>

definition CopyFile :: "env \<Rightarrow> world \<Rightarrow> string \<Rightarrow> string \<Rightarrow> world \<times> io_error option" where
  "CopyFile e w src dst =
     (case files w src of
        None \<Rightarrow> (w, Some OpenError)
      | Some content \<Rightarrow>
          (case copy_fault e of
             Some OpenError \<Rightarrow> (w, Some OpenError)
           | Some CreateError \<Rightarrow> (w, Some CreateError)
           | Some CopyError \<Rightarrow>
               (w\<lparr>files := (files w)(dst \<mapsto> take (copy_written e) content)\<rparr>, Some CopyError)
           | Some err \<Rightarrow> (w\<lparr>files := (files w)(dst \<mapsto> content)\<rparr>, Some err)
           | None \<Rightarrow> (w\<lparr>files := (files w)(dst \<mapsto> content)\<rparr>, None)))"

subsection \<open>FixBrokenDownloadFile\<close>

text \<open>The replay either panics (an index out of range stops the process in the world
  reached) or ends with the world, \<open>resultContainer\<close> and \<open>lastSuccessIndex\<close>.\<close>

datatype replay = Panicked world | Replayed world "string list" int

text \<open>The world a replay ends in.\<close>

definition replay_world :: "replay \<Rightarrow> world" where
  "replay_world r = (case r of Panicked w \<Rightarrow> w | Replayed w rc lsi \<Rightarrow> w)"

text \<open>The inner loop \<open>for i := 0; i < maxRetry; i++\<close> for one line, by the number of
  rounds left (\<open>maxRetry - i\<close>).\<close>

fun retry ::
  "env \<Rightarrow> int \<Rightarrow> string \<Rightarrow> nat \<Rightarrow> world \<Rightarrow> string list \<Rightarrow> int \<Rightarrow> replay" where
  "retry e index brokenLine 0 w resultContainer lastSuccessIndex =
     Replayed w resultContainer lastSuccessIndex"
| "retry e index brokenLine (Suc left) w resultContainer lastSuccessIndex =
     (if index = lastSuccessIndex then Replayed w resultContainer lastSuccessIndex
      else let fileInfos = Split brokenLine (CHR ''|'') in
        if length fileInfos < 3 then Panicked w
        else (case NewFixFileDownloader e w (fileInfos ! 2) (fileInfos ! 1) resultContainer of
                (w1, downloader) \<Rightarrow>
                  if length downloader \<le> 0 then Replayed w1 downloader index
                  else retry e index brokenLine left (Send w1 (RetryNotice (int left)))
                         downloader lastSuccessIndex))"

text \<open>The outer loop \<open>for index, brokenLine := range resultLine\<close>.\<close>

fun replay_lines ::
  "env \<Rightarrow> nat \<Rightarrow> int \<Rightarrow> string list \<Rightarrow> world \<Rightarrow> string list \<Rightarrow> int \<Rightarrow> replay" where
  "replay_lines e maxRetry index [] w resultContainer lastSuccessIndex =
     Replayed w resultContainer lastSuccessIndex"
| "replay_lines e maxRetry index (brokenLine # later) w resultContainer lastSuccessIndex =
     (case retry e index brokenLine maxRetry w resultContainer lastSuccessIndex of
        Panicked w1 \<Rightarrow> Panicked w1
      | Replayed w1 rc lsi \<Rightarrow> replay_lines e maxRetry (index + 1) later w1 rc lsi)"

text \<open>How a pass ends: at one of its four \<open>return\<close>s after an error, in a panic, or
  at its end; there with the value \<open>resultContainer\<close> has when the function returns.\<close>

datatype pass_end =
    CopyFailed io_error
  | OpenFailed
  | PassPanicked
  | RemoveFailed "string list"
  | TruncateFailed "string list"
  | Completed "string list"

definition FixBrokenDownloadFile :: "env \<Rightarrow> int \<Rightarrow> world \<Rightarrow> world \<times> pass_end" where
  "FixBrokenDownloadFile e maxRetry w =
     (let FailedDownloadFileNameTemp = FailedDownloadFileName @ ''.tmp'' in
      case CopyFile e w FailedDownloadFileName FailedDownloadFileNameTemp of
        (w1, Some err) \<Rightarrow> (w1, CopyFailed err)
      | (w1, None) \<Rightarrow>
          (case files w1 FailedDownloadFileNameTemp of
             None \<Rightarrow> (w1, OpenFailed)
           | Some content \<Rightarrow>
               (case replay_lines e (nat maxRetry) 0 (read_result_lines content) w1 [] (- 1) of
                  Panicked w2 \<Rightarrow> (w2, PassPanicked)
                | Replayed w2 resultContainer lastSuccessIndex \<Rightarrow>
                    (case os_Remove e w2 FailedDownloadFileNameTemp of
                       (w3, False) \<Rightarrow> (w3, RemoveFailed resultContainer)
                     | (w3, True) \<Rightarrow>
                         if truncate_ok e
                         then (w3\<lparr>files := (files w3)(FailedDownloadFileName \<mapsto> [])\<rparr>,
                               Completed resultContainer)
                         else (w3, TruncateFailed resultContainer)))))"

subsection \<open>Environments and worlds for the examples\<close>

text \<open>\<open>env_net_down\<close>: no fetch gets an answer (\<open>client.Do\<close> fails); every file
  operation is permitted. \<open>env_refuse\<close>: the same network, and no directory may be made
  and no file removed.\<close>

definition env_net_down :: env where
  "env_net_down = \<lparr>fetch = (\<lambda>n url. DoFails), got_fetch = (\<lambda>n url. GotFails ''timeout'' None),
     clock = (\<lambda>n. ''2024-06-01 12:00:00''), mkdir_ok = (\<lambda>d. True), remove_ok = (\<lambda>p. True),
     copy_fault = None, copy_written = 0, truncate_ok = True\<rparr>"

definition env_refuse :: env where
  "env_refuse = \<lparr>fetch = (\<lambda>n url. DoFails), got_fetch = (\<lambda>n url. GotFails ''timeout'' None),
     clock = (\<lambda>n. ''2024-06-01 12:00:00''), mkdir_ok = (\<lambda>d. False), remove_ok = (\<lambda>p. False),
     copy_fault = None, copy_written = 0, truncate_ok = True\<rparr>"

text \<open>\<open>env_copy_fails\<close>: the snapshot copy breaks after seven bytes.
  \<open>env_keep_tmp\<close>: the snapshot file cannot be removed.\<close>

definition env_copy_fails :: env where
  "env_copy_fails = \<lparr>fetch = (\<lambda>n url. DoFails), got_fetch = (\<lambda>n url. GotFails ''timeout'' None),
     clock = (\<lambda>n. ''2024-06-01 12:00:00''), mkdir_ok = (\<lambda>d. True), remove_ok = (\<lambda>p. True),
     copy_fault = Some CopyError, copy_written = 7, truncate_ok = True\<rparr>"

definition env_keep_tmp :: env where
  "env_keep_tmp = \<lparr>fetch = (\<lambda>n url. DoFails), got_fetch = (\<lambda>n url. GotFails ''timeout'' None),
     clock = (\<lambda>n. ''2024-06-01 12:00:00''), mkdir_ok = (\<lambda>d. True),
     remove_ok = (\<lambda>p. p \<noteq> ''failed-download.txt.tmp''),
     copy_fault = None, copy_written = 0, truncate_ok = True\<rparr>"

text \<open>A ledger of one entry and nothing else on disk.\<close>

definition world_one :: world where
  "world_one = \<lparr>files = [FailedDownloadFileName \<mapsto>
       ''2024-01-01 00:00:00|/out/a.mp3|http://x/a.mp3'' @ [LF]],
     dirs = {}, calls = 0, sent = []\<rparr>"

text \<open>The destination holds the 1015 page, or a finished download.\<close>

definition world_blocked :: world where
  "world_blocked = \<lparr>files = [''/out/a.mp3'' \<mapsto> ''error code: 1015''],
     dirs = {''/out''}, calls = 0, sent = []\<rparr>"

definition world_done :: world where
  "world_done = \<lparr>files = [''/out/a.mp3'' \<mapsto> ''ID3 audio''],
     dirs = {''/out''}, calls = 0, sent = []\<rparr>"


definition env_copy_breaks :: env where
  "env_copy_breaks = \<lparr>fetch = (\<lambda>n url. CopyFails ''ID3''),
     got_fetch = (\<lambda>n url. GotFails ''timeout'' None),
     clock = (\<lambda>n. ''2024-06-01 12:00:00''), mkdir_ok = (\<lambda>d. True), remove_ok = (\<lambda>p. True),
     copy_fault = None, copy_written = 0, truncate_ok = True\<rparr>"

text \<open>A ledger of two entries; and one whose first line lost its last field.\<close>

definition world_two :: world where
  "world_two = \<lparr>files = [FailedDownloadFileName \<mapsto>
       ''2024-01-01 00:00:00|/out/a.mp3|http://x/a.mp3'' @ [LF] @
       ''2024-01-01 00:00:05|/out/b.mp3|http://x/b.mp3'' @ [LF]],
     dirs = {}, calls = 0, sent = []\<rparr>"

definition world_torn :: world where
  "world_torn = \<lparr>files = [FailedDownloadFileName \<mapsto>
       ''2024-01-01 00:00:00|/out/a.mp3'' @ [LF] @
       ''2024-01-01 00:00:05|/out/b.mp3|http://x/b.mp3'' @ [LF]],
     dirs = {}, calls = 0, sent = []\<rparr>"

subsection \<open>Notions used to state the properties\<close>

text \<open>The fields \<open>fileInfos[1]\<close> and \<open>fileInfos[2]\<close> of a ledger line, and whether
  the line has them.\<close>

definition entry_path :: "string \<Rightarrow> string" where
  "entry_path brokenLine = Split brokenLine (CHR ''|'') ! 1"

definition entry_url :: "string \<Rightarrow> string" where
  "entry_url brokenLine = Split brokenLine (CHR ''|'') ! 2"

definition well_formed :: "string \<Rightarrow> bool" where
  "well_formed brokenLine = (3 \<le> length (Split brokenLine (CHR ''|'')))"

text \<open>A fetch that ends in an error before anything is written to the destination.\<close>

definition writes_nothing :: "dl_outcome \<Rightarrow> bool" where
  "writes_nothing out =
     (case out of RequestFails \<Rightarrow> True | DoFails \<Rightarrow> True | CreateFails \<Rightarrow> True
      | CopyFails part \<Rightarrow> False | Copied body \<Rightarrow> False)"

text \<open>The record \<open>NewFixFileDownloader\<close> appends for a line when the clock is read
  after fetch number \<open>n\<close>; and the records of a replay in which every attempt fails:
  \<open>m\<close> for each line, in the order of the lines, the first after fetch number \<open>n\<close>.\<close>

definition failure_record :: "env \<Rightarrow> nat \<Rightarrow> string \<Rightarrow> string" where
  "failure_record e n brokenLine =
     clock e n @ ''|'' @ entry_path brokenLine @ ''|'' @ entry_url brokenLine"

fun failure_records :: "env \<Rightarrow> nat \<Rightarrow> nat \<Rightarrow> string list \<Rightarrow> string list" where
  "failure_records e m n [] = []"
| "failure_records e m n (brokenLine # later) =
     map (\<lambda>i. failure_record e (n + i) brokenLine) [0..<m] @ failure_records e m (n + m) later"



text \<open>A character that survives trimming: neither a carriage return nor a newline.\<close>

definition payload :: "char \<Rightarrow> bool" where
  "payload c = (c \<noteq> CR \<and> c \<noteq> LF)"

section \<open>Properties\<close>

subsection \<open>Reading the ledger\<close>

lemma list_ex_dropWhile: "list_ex (\<lambda>c. \<not> P c) (dropWhile P l) = list_ex (\<lambda>c. \<not> P c) l"
  by (induction l) auto

lemma Trim_nonempty: "(Trim l ct \<noteq> []) = list_ex (\<lambda>c. c \<notin> set ct) l"
proof -
  let ?P = "\<lambda>c. c \<in> set ct"
  have "(Trim l ct \<noteq> []) = list_ex (\<lambda>c. \<not> ?P c) (rev (dropWhile ?P l))"
    by (simp add: Trim_def dropWhile_eq_Nil_conv list_ex_iff)
  also have "\<dots> = list_ex (\<lambda>c. \<not> ?P c) (dropWhile ?P l)"
    by (simp add: list_ex_iff)
  finally show ?thesis
    by (simp only: list_ex_dropWhile)
qed

lemma Split_nonempty: "Split s sep \<noteq> []"
  by (induction s) (auto split: list.splits)

lemma drop_cr_payload: "list_ex payload (drop_cr l) = list_ex payload l"
  apply (cases l rule: rev_cases)
  apply (auto simp: drop_cr_def payload_def list_ex_iff)
  done

lemma ReadLine_payload:
  assumes "ReadLine s = Some (l, r)"
  shows "list_ex payload s = (list_ex payload l \<or> list_ex payload r)"
proof -
  let ?k = "length (takeWhile (\<lambda>c. c \<noteq> LF) s)"
  show ?thesis
  proof (cases "?k < length s \<and> ?k < bufio_size")
    case True
    then have l: "l = drop_cr (take ?k s)" and r: "r = drop (Suc ?k) s"
      using assms by (auto simp: ReadLine_def Let_def split: if_splits)
    have nth: "s ! ?k = LF"
      using True nth_length_takeWhile[of "\<lambda>c. c \<noteq> LF" s] by auto
    have "s = take ?k s @ s ! ?k # drop (Suc ?k) s"
      using True by (simp add: id_take_nth_drop)
    then have "list_ex payload s = list_ex payload (take ?k s @ LF # drop (Suc ?k) s)"
      using nth by simp
    then show ?thesis
      by (simp add: l r drop_cr_payload payload_def)
  next
    case False
    then consider (a) "l = take (bufio_size - 1) s" "r = drop (bufio_size - 1) s"
      | (b) "l = take bufio_size s" "r = drop bufio_size s"
      | (c) "l = s" "r = []"
      using assms by (auto simp: ReadLine_def Let_def split: if_splits)
    then show ?thesis
    proof cases
      case a
      have "list_ex payload s = list_ex payload (take (bufio_size - 1) s @ drop (bufio_size - 1) s)"
        by simp
      then show ?thesis unfolding a list_ex_append .
    next
      case b
      have "list_ex payload s = list_ex payload (take bufio_size s @ drop bufio_size s)"
        by simp
      then show ?thesis unfolding b list_ex_append .
    next
      case c
      then show ?thesis by simp
    qed
  qed
qed

lemma read_result_lines_payload: "(read_result_lines s \<noteq> []) = list_ex payload s"
proof (induction s rule: read_result_lines.induct)
  case (1 s)
  show ?case
  proof (cases "ReadLine s")
    case None
    then have "s = []" by (auto simp: ReadLine_def Let_def split: if_splits)
    then show ?thesis using None by (simp add: read_result_lines.simps)
  next
    case (Some p)
    obtain l r where p: "p = (l, r)" by (cases p)
    have t: "(length (Trim l [CR, LF]) > 0) = list_ex payload l"
      using Trim_nonempty[of l "[CR, LF]"] by (auto simp: payload_def list_ex_iff)
    show ?thesis
    proof (cases "length (Trim l [CR, LF]) > 0")
      case True
      then show ?thesis
        using Some p t ReadLine_payload[of s l r]
        by (subst read_result_lines.simps) simp
    next
      case False
      have "(read_result_lines r \<noteq> []) = list_ex payload r"
        using "1.IH"(2)[OF Some p[symmetric] False] .
      then show ?thesis
        using Some p t False ReadLine_payload[of s l r]
        by (subst read_result_lines.simps) simp
    qed
  qed
qed

lemma Split_payload:
  "list_ex (\<lambda>l. Trim l [CR, LF] \<noteq> []) (Split s LF) = list_ex payload s"
proof (induction s)
  case Nil
  then show ?case by (simp add: Trim_def)
next
  case (Cons c cs)
  obtain f fs where sp: "Split cs LF = f # fs"
    using Split_nonempty[of cs LF] by (cases "Split cs LF") auto
  have t: "\<And>l. (Trim l [CR, LF] \<noteq> []) = list_ex payload l"
    by (auto simp: Trim_nonempty payload_def list_ex_iff)
  show ?case using Cons sp
    by (auto simp: t payload_def)
qed

text \<open>
  Claim C9. \<open>CheckIfNeedFixBrokenDownloadFile\<close> returns true exactly when the ledger
  file has a line (the pieces between its newlines) that is not empty once carriage
  returns and newlines are trimmed from it, and it leaves the world, so the ledger's
  content, as it was. A ledger that cannot be opened gives false. The lines are stated
  with \<open>Split\<close> at the newlines, not with the reader's loop, whose pieces of an
  over-long line this covers too.
\<close>

theorem check_if_need_iff_pending_line:
  "CheckIfNeedFixBrokenDownloadFile w =
     (w, case files w FailedDownloadFileName of
           None \<Rightarrow> False
         | Some content \<Rightarrow> list_ex (\<lambda>l. Trim l [CR, LF] \<noteq> []) (Split content LF))"
  by (simp add: CheckIfNeedFixBrokenDownloadFile_def read_result_lines_payload Split_payload
      split: option.splits)

subsection \<open>One retry: NewFixFileDownloader\<close>

lemma calls_fix_download: "calls (fst (fix_download e w url p rl)) = Suc (calls w)"
  by (simp add: fix_download_def DownloadFile_def Send_def os_ReadFile_def Let_def
      split: dl_outcome.splits option.splits)

lemma files_fix_download:
  "files (fst (fix_download e w url p rl)) =
     (case fetch e (calls w) url of
        CopyFails part \<Rightarrow> (files w)(p \<mapsto> part)
      | Copied body \<Rightarrow> (files w)(p \<mapsto> body)
      | _ \<Rightarrow> files w)"
  by (simp add: fix_download_def DownloadFile_def Send_def os_ReadFile_def Let_def
      split: dl_outcome.splits option.splits)

text \<open>
  Claim C6. When the destination file exists: with exactly the 1015 page as content,
  \<open>NewFixFileDownloader\<close> calls \<open>os.Remove\<close> on it and goes on to fetch (one more
  fetch is counted, and the file afterwards is what that fetch wrote, or absent when it
  wrote nothing; only a refused removal leaves the page); with any other content nothing
  happens: the world is the same, so no fetch was made, and \<open>resultLines\<close> comes back
  as it was given.
\<close>

theorem existing_destination_cases:
  assumes "files w storePath = Some content"
  shows "(content = marker1015 \<longrightarrow>
           NewFixFileDownloader e w url storePath resultLines =
             fix_download e (fst (os_Remove e w storePath)) url storePath resultLines
         \<and> calls (fst (NewFixFileDownloader e w url storePath resultLines)) = Suc (calls w)
         \<and> files (fst (NewFixFileDownloader e w url storePath resultLines)) storePath =
             (case fetch e (calls w) url of
                CopyFails part \<Rightarrow> Some part
              | Copied body \<Rightarrow> Some body
              | _ \<Rightarrow> if remove_ok e storePath then None else Some marker1015))
       \<and> (content \<noteq> marker1015 \<longrightarrow>
           NewFixFileDownloader e w url storePath resultLines = (w, resultLines))"
proof -
  have ex: "FileOrDirExists w storePath"
    using assms by (simp add: FileOrDirExists_def)
  have nf: "NewFixFileDownloader e w url storePath resultLines =
      (if content = marker1015
       then fix_download e (fst (os_Remove e w storePath)) url storePath resultLines
       else (w, resultLines))"
    using assms ex by (simp add: NewFixFileDownloader_def os_ReadFile_def)
  have rm: "calls (fst (os_Remove e w storePath)) = calls w"
    by (simp add: os_Remove_def)
  have rf: "files (fst (os_Remove e w storePath)) storePath =
      (if remove_ok e storePath then None else Some content)"
    using assms by (simp add: os_Remove_def)
  show ?thesis
    using nf rm rf
    by (auto simp: calls_fix_download files_fix_download split: dl_outcome.splits)
qed

theorem existing_destination_cases_witness:
  "calls (fst (NewFixFileDownloader env_net_down world_blocked ''http://x/a.mp3'' ''/out/a.mp3'' [])) = 1
   \<and> files (fst (NewFixFileDownloader env_net_down world_blocked ''http://x/a.mp3'' ''/out/a.mp3'' []))
        ''/out/a.mp3'' = None
   \<and> NewFixFileDownloader env_net_down world_done ''http://x/a.mp3'' ''/out/a.mp3'' [''earlier record'']
        = (world_done, [''earlier record''])"
proof -
  have b: "files world_blocked ''/out/a.mp3'' = Some marker1015"
    by (simp add: world_blocked_def marker1015_def)
  have d: "files world_done ''/out/a.mp3'' = Some ''ID3 audio''"
    by (simp add: world_done_def)
  have n: "''ID3 audio'' \<noteq> marker1015"
    by (simp add: marker1015_def)
  have c: "calls world_blocked = 0" "fetch env_net_down 0 ''http://x/a.mp3'' = DoFails"
    "remove_ok env_net_down ''/out/a.mp3''"
    by (simp_all add: world_blocked_def env_net_down_def)
  note at_blocked = existing_destination_cases [OF b, of env_net_down "''http://x/a.mp3''" "[]"]
  note at_done = existing_destination_cases
    [OF d, of env_net_down "''http://x/a.mp3''" "[''earlier record'']"]
  have p1: "calls (fst (NewFixFileDownloader env_net_down world_blocked ''http://x/a.mp3''
      ''/out/a.mp3'' [])) = Suc (calls world_blocked)"
    using at_blocked by blast
  have p2: "files (fst (NewFixFileDownloader env_net_down world_blocked ''http://x/a.mp3''
      ''/out/a.mp3'' [])) ''/out/a.mp3'' =
      (case fetch env_net_down (calls world_blocked) ''http://x/a.mp3'' of
         CopyFails part \<Rightarrow> Some part
       | Copied body \<Rightarrow> Some body
       | _ \<Rightarrow> if remove_ok env_net_down ''/out/a.mp3'' then None else Some marker1015)"
    using at_blocked by blast
  have p3: "NewFixFileDownloader env_net_down world_done ''http://x/a.mp3'' ''/out/a.mp3''
      [''earlier record''] = (world_done, [''earlier record''])"
    using at_done n by blast
  show ?thesis
    using p1 p2 p3 c by simp
qed

text \<open>
  Claim C10. When the destination does not exist and its directory cannot be made,
  \<open>NewFixFileDownloader\<close> returns the empty (\<open>nil\<close>) list whatever \<open>resultLines\<close>
  held, changing nothing; and the retry loop of \<open>FixBrokenDownloadFile\<close>, on a line
  naming that destination, then ends at once, however many rounds are left, with an
  empty \<open>resultContainer\<close> and the line's index as \<open>lastSuccessIndex\<close>.
\<close>

theorem mkdir_failure_discards_records:
  assumes "\<not> FileOrDirExists w storePath"
    and "\<not> mkdir_ok e (filepath_Dir storePath)"
    and "Split brokenLine (CHR ''|'') = stamp # storePath # url # rest"
    and "index \<noteq> lastSuccessIndex"
  shows "NewFixFileDownloader e w url storePath resultLines = (w, [])
    \<and> retry e index brokenLine (Suc left) w resultLines lastSuccessIndex = Replayed w [] index"
  using assms by (simp add: NewFixFileDownloader_def os_MkdirAll_def)

theorem mkdir_failure_discards_records_witness:
  "NewFixFileDownloader env_refuse world_one ''http://x/a.mp3'' ''/out/a.mp3'' [''kept so far'']
     = (world_one, [])
   \<and> retry env_refuse 0 ''2024-01-01 00:00:00|/out/a.mp3|http://x/a.mp3'' (Suc 2) world_one
        [''kept so far''] (- 1)
     = Replayed world_one [] 0"
proof -
  have a: "\<not> FileOrDirExists world_one ''/out/a.mp3''"
    by (simp add: FileOrDirExists_def world_one_def FailedDownloadFileName_def)
  have b: "\<not> mkdir_ok env_refuse (filepath_Dir ''/out/a.mp3'')"
    by (simp add: env_refuse_def)
  have c: "Split ''2024-01-01 00:00:00|/out/a.mp3|http://x/a.mp3'' (CHR ''|'')
      = ''2024-01-01 00:00:00'' # ''/out/a.mp3'' # ''http://x/a.mp3'' # []"
    by simp
  have d: "(0::int) \<noteq> - 1" by simp
  show ?thesis
    using mkdir_failure_discards_records [OF a b c d, of "[''kept so far'']" 2] .
qed

subsection \<open>The first pass: NewFileDownloader\<close>

text \<open>
  Claim C8. The task made by \<open>NewFileDownloader\<close> returns \<open>nil\<close> whatever happens:
  when \<open>got.Download\<close> succeeds, when the Content-Length fallback succeeds, and when the
  download fails (then the failure goes to the notifier and to the ledger only).
\<close>

theorem task_returns_nil:
  "snd (NewFileDownloader e url path filename w) = None"
  by (simp add: NewFileDownloader_def Let_def split: prod.splits option.splits)

subsection \<open>The live ledger during a pass\<close>

text \<open>A file whose content is not the 1015 page survives every retry: when it is the
  destination, the retry leaves it alone, and otherwise only the destination is written.\<close>

lemma files_NewFix_keeps:
  assumes "files w q = Some c" "c \<noteq> marker1015"
  shows "files (fst (NewFixFileDownloader e w url p rl)) q = Some c"
proof (cases "p = q")
  case True
  then show ?thesis
    using assms by (simp add: NewFixFileDownloader_def FileOrDirExists_def os_ReadFile_def)
next
  case False
  have rm: "files (fst (os_Remove e w' p)) q = files w' q" for w'
    using False by (simp add: os_Remove_def)
  have mk: "files (fst (os_MkdirAll e w' d)) = files w'" for w' d
    by (simp add: os_MkdirAll_def)
  have fd: "files (fst (fix_download e w' url p rl)) q = files w' q" for w'
    using False by (simp add: files_fix_download split: dl_outcome.splits)
  show ?thesis
    using assms rm mk fd
    by (auto simp: NewFixFileDownloader_def os_ReadFile_def os_MkdirAll_def
        split: option.splits prod.splits bool.splits if_splits)
qed

lemma files_retry_keeps:
  assumes "files w q = Some c" "c \<noteq> marker1015"
  shows "files (replay_world (retry e index l left w rc lsi)) q = Some c"
  using assms
proof (induction left arbitrary: w rc)
  case 0
  then show ?case by (simp add: replay_world_def)
next
  case (Suc left)
  let ?fi = "Split l (CHR ''|'')"
  obtain w1 d where nf: "NewFixFileDownloader e w (?fi ! 2) (?fi ! 1) rc = (w1, d)"
    by (cases "NewFixFileDownloader e w (?fi ! 2) (?fi ! 1) rc")
  have k: "files w1 q = Some c"
    using files_NewFix_keeps [OF Suc.prems, of e "?fi ! 2" "?fi ! 1" rc] nf by simp
  have k2: "files (Send w1 n) q = Some c" for n
    using k by (simp add: Send_def)
  show ?case
    using Suc.prems nf k Suc.IH [OF k2 Suc.prems(2)]
    by (simp add: replay_world_def Let_def)
qed

lemma files_replay_lines_keeps:
  assumes "files w q = Some c" "c \<noteq> marker1015"
  shows "files (replay_world (replay_lines e m index ls w rc lsi)) q = Some c"
  using assms
proof (induction ls arbitrary: w rc lsi index)
  case Nil
  then show ?case by (simp add: replay_world_def)
next
  case (Cons l ls)
  show ?case
  proof (cases "retry e index l m w rc lsi")
    case (Panicked w1)
    then show ?thesis
      using files_retry_keeps [OF Cons.prems, of e index l m rc lsi]
      by (simp add: replay_world_def)
  next
    case (Replayed w1 rc1 lsi1)
    then have "files w1 q = Some c"
      using files_retry_keeps [OF Cons.prems, of e index l m rc lsi]
      by (simp add: replay_world_def)
    then show ?thesis
      using Replayed Cons.IH [OF _ Cons.prems(2)] by simp
  qed
qed

lemma read_marker: "read_result_lines marker1015 = [marker1015]"
  by code_simp

lemma replay_marker_world: "replay_world (replay_lines e m index [marker1015] w rc lsi) = w"
proof (cases m)
  case 0
  then show ?thesis by (simp add: replay_world_def)
next
  case (Suc n)
  have "length (Split marker1015 (CHR ''|'')) < 3"
    by (simp add: marker1015_def)
  then show ?thesis
    using Suc by (simp add: replay_world_def Let_def)
qed

lemma files_CopyFile_other:
  "q \<noteq> dst \<Longrightarrow> files (fst (CopyFile e w src dst)) q = files w q"
  by (simp add: CopyFile_def split: option.splits io_error.splits)

lemma tmp_neq: "FailedDownloadFileName \<noteq> FailedDownloadFileName @ ''.tmp''"
  by simp

lemma files_replay_ledger:
  assumes "files w1 FailedDownloadFileName = files w1 (FailedDownloadFileName @ ''.tmp'')"
   and "files w1 (FailedDownloadFileName @ ''.tmp'') = Some content"
  shows "files (replay_world (replay_lines e m 0 (read_result_lines content) w1 [] (- 1)))
           FailedDownloadFileName = Some content"
proof (cases "content = marker1015")
  case True
  have "replay_world (replay_lines e m 0 (read_result_lines content) w1 [] (- 1)) = w1"
    unfolding True read_marker by (rule replay_marker_world)
  then show ?thesis
    using assms by simp
next
  case False
  then show ?thesis
    using assms files_replay_lines_keeps [of w1 FailedDownloadFileName content] by simp
qed

lemma ledger_changes_only_on_completion:
  assumes "\<And>rc. snd (FixBrokenDownloadFile e maxRetry w) \<noteq> Completed rc"
  shows "files (fst (FixBrokenDownloadFile e maxRetry w)) FailedDownloadFileName
           = files w FailedDownloadFileName"
proof (cases "CopyFile e w FailedDownloadFileName (FailedDownloadFileName @ ''.tmp'')")
  case (Pair w1 r)
  have led: "files w1 FailedDownloadFileName = files w FailedDownloadFileName"
    using files_CopyFile_other [OF tmp_neq, of e w FailedDownloadFileName] Pair by simp
  show ?thesis
  proof (cases r)
    case (Some err)
    then show ?thesis
      using Pair led by (simp add: FixBrokenDownloadFile_def Let_def)
  next
    case None
    then obtain content where src: "files w FailedDownloadFileName = Some content"
      and w1: "files w1 (FailedDownloadFileName @ ''.tmp'') = Some content"
      using Pair
      by (auto simp: CopyFile_def split: option.splits io_error.splits)
    have same: "files w1 FailedDownloadFileName = files w1 (FailedDownloadFileName @ ''.tmp'')"
      using led src w1 by simp
    let ?r = "replay_lines e (nat maxRetry) 0 (read_result_lines content) w1 [] (- 1)"
    have keep: "files (replay_world ?r) FailedDownloadFileName = Some content"
      using files_replay_ledger [OF same w1] .
    have rm: "files (fst (os_Remove e w2 (FailedDownloadFileName @ ''.tmp''))) FailedDownloadFileName
        = files w2 FailedDownloadFileName" for w2
      by (simp add: os_Remove_def)
    show ?thesis
    proof (cases ?r)
      case (Panicked w2)
      then show ?thesis
        using Pair None w1 keep src
        by (simp add: FixBrokenDownloadFile_def Let_def replay_world_def)
    next
      case (Replayed w2 rc lsi)
      obtain w3 ok where os: "os_Remove e w2 (FailedDownloadFileName @ ''.tmp'') = (w3, ok)"
        by (cases "os_Remove e w2 (FailedDownloadFileName @ ''.tmp'')")
      have w3: "files w3 FailedDownloadFileName = Some content"
        using rm [of w2] os keep Replayed by (simp add: replay_world_def)
      have fx: "FixBrokenDownloadFile e maxRetry w =
          (if ok then if truncate_ok e
             then (w3\<lparr>files := (files w3)(FailedDownloadFileName \<mapsto> [])\<rparr>, Completed rc)
             else (w3, TruncateFailed rc)
           else (w3, RemoveFailed rc))"
        using Pair None w1 Replayed os
        by (simp add: FixBrokenDownloadFile_def Let_def)
      show ?thesis
        using assms [of rc] fx w3 src by (simp split: if_splits)
    qed
  qed
qed

lemma no_completion_without_removal:
  assumes "\<not> remove_ok e (FailedDownloadFileName @ ''.tmp'')"
  shows "snd (FixBrokenDownloadFile e maxRetry w) \<noteq> Completed rc"
  using assms
  by (simp add: FixBrokenDownloadFile_def Let_def os_Remove_def
      split: prod.splits option.splits replay.splits)

text \<open>
  Claim C3. When the snapshot copy fails, \<open>FixBrokenDownloadFile\<close> returns at once
  with that error; when it returns because the snapshot file could not be deleted, and
  whenever the environment refuses that deletion, the pass does not reach its end. In
  each case the live ledger file has the content it had before the pass: it was not
  truncated.
\<close>

theorem ledger_untouched_on_infrastructure_error:
  "(snd (CopyFile e w FailedDownloadFileName (FailedDownloadFileName @ ''.tmp'')) = Some err \<longrightarrow>
      snd (FixBrokenDownloadFile e maxRetry w) = CopyFailed err
      \<and> files (fst (FixBrokenDownloadFile e maxRetry w)) FailedDownloadFileName
          = files w FailedDownloadFileName)
   \<and> (snd (FixBrokenDownloadFile e maxRetry w) = RemoveFailed rc \<longrightarrow>
      files (fst (FixBrokenDownloadFile e maxRetry w)) FailedDownloadFileName
          = files w FailedDownloadFileName)
   \<and> (\<not> remove_ok e (FailedDownloadFileName @ ''.tmp'') \<longrightarrow>
      (\<forall>rc'. snd (FixBrokenDownloadFile e maxRetry w) \<noteq> Completed rc')
      \<and> files (fst (FixBrokenDownloadFile e maxRetry w)) FailedDownloadFileName
          = files w FailedDownloadFileName)"
proof (intro conjI impI allI)
  assume c: "snd (CopyFile e w FailedDownloadFileName (FailedDownloadFileName @ ''.tmp'')) = Some err"
  then show f: "snd (FixBrokenDownloadFile e maxRetry w) = CopyFailed err"
    by (cases "CopyFile e w FailedDownloadFileName (FailedDownloadFileName @ ''.tmp'')")
       (simp add: FixBrokenDownloadFile_def Let_def)
  show "files (fst (FixBrokenDownloadFile e maxRetry w)) FailedDownloadFileName
          = files w FailedDownloadFileName"
    using f by (intro ledger_changes_only_on_completion) simp
next
  assume "snd (FixBrokenDownloadFile e maxRetry w) = RemoveFailed rc"
  then show "files (fst (FixBrokenDownloadFile e maxRetry w)) FailedDownloadFileName
          = files w FailedDownloadFileName"
    by (intro ledger_changes_only_on_completion) simp
next
  fix rc'
  assume "\<not> remove_ok e (FailedDownloadFileName @ ''.tmp'')"
  then show "snd (FixBrokenDownloadFile e maxRetry w) \<noteq> Completed rc'"
    by (rule no_completion_without_removal)
next
  assume "\<not> remove_ok e (FailedDownloadFileName @ ''.tmp'')"
  then show "files (fst (FixBrokenDownloadFile e maxRetry w)) FailedDownloadFileName
          = files w FailedDownloadFileName"
    by (intro ledger_changes_only_on_completion no_completion_without_removal)
qed

theorem ledger_untouched_on_infrastructure_error_witness:
  "snd (FixBrokenDownloadFile env_copy_fails 2 world_one) = CopyFailed CopyError
   \<and> files (fst (FixBrokenDownloadFile env_copy_fails 2 world_one)) FailedDownloadFileName
        = files world_one FailedDownloadFileName
   \<and> snd (FixBrokenDownloadFile env_keep_tmp 2 world_one)
        = RemoveFailed [''2024-06-01 12:00:00|/out/a.mp3|http://x/a.mp3'',
                        ''2024-06-01 12:00:00|/out/a.mp3|http://x/a.mp3'']
   \<and> files (fst (FixBrokenDownloadFile env_keep_tmp 2 world_one)) FailedDownloadFileName
        = files world_one FailedDownloadFileName"
proof -
  have c: "snd (CopyFile env_copy_fails world_one FailedDownloadFileName
      (FailedDownloadFileName @ ''.tmp'')) = Some CopyError"
    by code_simp
  have r: "snd (FixBrokenDownloadFile env_keep_tmp 2 world_one)
      = RemoveFailed [''2024-06-01 12:00:00|/out/a.mp3|http://x/a.mp3'',
                      ''2024-06-01 12:00:00|/out/a.mp3|http://x/a.mp3'']"
    by code_simp
  show ?thesis
    using c r
      ledger_untouched_on_infrastructure_error [of env_copy_fails world_one CopyError 2]
      ledger_untouched_on_infrastructure_error [of env_keep_tmp world_one _ 2
        "[''2024-06-01 12:00:00|/out/a.mp3|http://x/a.mp3'',
          ''2024-06-01 12:00:00|/out/a.mp3|http://x/a.mp3'']"]
    by blast
qed


subsection \<open>A replay in which every attempt fails\<close>

lemma length_failure_records: "length (failure_records e m n ls) = m * length ls"
  by (induction ls arbitrary: n) simp_all

lemma NewFix_fetch_fails:
  assumes "well_formed l" "files w (entry_path l) = None"
    "mkdir_ok e (filepath_Dir (entry_path l))" "writes_nothing (fetch e (calls w) (entry_url l))"
  shows "\<exists>w1. NewFixFileDownloader e w (entry_url l) (entry_path l) rc
            = (w1, rc @ [failure_record e (Suc (calls w)) l])
          \<and> files w1 = files w \<and> calls w1 = Suc (calls w)"
  using assms
  by (auto simp: NewFixFileDownloader_def os_MkdirAll_def os_ReadFile_def fix_download_def
      DownloadFile_def Send_def GetCurrentDateTime_def failure_record_def writes_nothing_def Let_def
      split: dl_outcome.splits)

lemma retry_fetch_fails:
  assumes "well_formed l" "index \<noteq> lsi" "files w (entry_path l) = None"
    "mkdir_ok e (filepath_Dir (entry_path l))" "\<And>n u. writes_nothing (fetch e n u)"
  shows "\<exists>w1. retry e index l m w rc lsi
            = Replayed w1 (rc @ map (\<lambda>i. failure_record e (Suc (calls w) + i) l) [0..<m]) lsi
          \<and> files w1 = files w \<and> calls w1 = calls w + m"
  using assms(3)
proof (induction m arbitrary: w rc)
  case 0
  then show ?case by simp
next
  case (Suc m)
  obtain w1 where nf: "NewFixFileDownloader e w (entry_url l) (entry_path l) rc
        = (w1, rc @ [failure_record e (Suc (calls w)) l])"
    and f1: "files w1 = files w" and c1: "calls w1 = Suc (calls w)"
    using NewFix_fetch_fails [OF assms(1) Suc.prems assms(4) assms(5)] by blast
  let ?w2 = "Send w1 (RetryNotice (int m))"
  have f2: "files ?w2 (entry_path l) = None" and c2: "calls ?w2 = Suc (calls w)"
    and f2': "files ?w2 = files w"
    using f1 c1 Suc.prems by (simp_all add: Send_def)
  obtain w3 where r: "retry e index l m ?w2 (rc @ [failure_record e (Suc (calls w)) l]) lsi
      = Replayed w3 ((rc @ [failure_record e (Suc (calls w)) l])
          @ map (\<lambda>i. failure_record e (Suc (calls ?w2) + i) l) [0..<m]) lsi"
    and f3: "files w3 = files ?w2" and c3: "calls w3 = calls ?w2 + m"
    using Suc.IH [OF f2] by blast
  have step: "retry e index l (Suc m) w rc lsi
      = retry e index l m ?w2 (rc @ [failure_record e (Suc (calls w)) l]) lsi"
    using assms(1,2) nf
    by (simp add: well_formed_def entry_path_def entry_url_def Let_def)
  have m: "map (\<lambda>i. failure_record e (Suc (calls w) + i) l) [0..<Suc m]
      = failure_record e (Suc (calls w)) l
          # map (\<lambda>i. failure_record e (Suc (calls ?w2) + i) l) [0..<m]"
    by (simp only: map_upt_Suc c2) simp
  show ?case
    using step r f3 c3 f2' c2 m by simp
qed

lemma replay_lines_fetch_fails:
  assumes "\<And>n u. writes_nothing (fetch e n u)" "lsi < index"
    "\<And>l. l \<in> set ls \<Longrightarrow> well_formed l \<and> files w (entry_path l) = None
        \<and> mkdir_ok e (filepath_Dir (entry_path l))"
  shows "\<exists>w1. replay_lines e m index ls w rc lsi
            = Replayed w1 (rc @ failure_records e m (Suc (calls w)) ls) lsi
          \<and> files w1 = files w \<and> calls w1 = calls w + m * length ls"
  using assms(2,3)
proof (induction ls arbitrary: w rc index)
  case Nil
  then show ?case by simp
next
  case (Cons l ls)
  have hl: "well_formed l" "files w (entry_path l) = None" "mkdir_ok e (filepath_Dir (entry_path l))"
    using Cons.prems(2) [of l] by simp_all
  have ne: "index \<noteq> lsi" using Cons.prems(1) by simp
  obtain w1 where r: "retry e index l m w rc lsi
      = Replayed w1 (rc @ map (\<lambda>i. failure_record e (Suc (calls w) + i) l) [0..<m]) lsi"
    and f1: "files w1 = files w" and c1: "calls w1 = calls w + m"
    using retry_fetch_fails [OF hl(1) ne hl(2) hl(3) assms(1)] by blast
  have rest: "\<And>l'. l' \<in> set ls \<Longrightarrow> well_formed l' \<and> files w1 (entry_path l') = None
      \<and> mkdir_ok e (filepath_Dir (entry_path l'))"
    using Cons.prems(2) f1 by simp
  have lt: "lsi < index + 1" using Cons.prems(1) by simp
  obtain w2 where r2: "replay_lines e m (index + 1) ls w1
        (rc @ map (\<lambda>i. failure_record e (Suc (calls w) + i) l) [0..<m]) lsi
      = Replayed w2 ((rc @ map (\<lambda>i. failure_record e (Suc (calls w) + i) l) [0..<m])
          @ failure_records e m (Suc (calls w1)) ls) lsi"
    and f2: "files w2 = files w1" and c2: "calls w2 = calls w1 + m * length ls"
    using Cons.IH [OF lt rest] by blast
  show ?case
    using r r2 f1 f2 c1 c2 by simp
qed

text \<open>
  Claim C2, as the code has it. Take a ledger of well-formed lines whose destinations
  are not on disk, and let every fetch fail before it writes anything. A pass with a
  positive \<open>maxRetry\<close> that reaches its end has in \<open>resultContainer\<close> exactly
  \<open>maxRetry\<close> records for each line, in the order of the lines, one per attempt, each
  with the time of its attempt: \<open>maxRetry\<close> times as many records as there were
  lines, so as many only for \<open>maxRetry = 1\<close>.
\<close>

theorem always_failing_entries_one_record_per_attempt:
  assumes "copy_fault e = None" "remove_ok e (FailedDownloadFileName @ ''.tmp'')" "truncate_ok e"
    and "files w FailedDownloadFileName = Some content"
    and "0 < maxRetry"
    and "\<And>n u. writes_nothing (fetch e n u)"
    and "\<And>l. l \<in> set (read_result_lines content) \<Longrightarrow>
           well_formed l \<and> files w (entry_path l) = None
           \<and> entry_path l \<noteq> FailedDownloadFileName @ ''.tmp''
           \<and> mkdir_ok e (filepath_Dir (entry_path l))"
  shows "snd (FixBrokenDownloadFile e maxRetry w)
           = Completed (failure_records e (nat maxRetry) (Suc (calls w)) (read_result_lines content))
       \<and> length (failure_records e (nat maxRetry) (Suc (calls w)) (read_result_lines content))
           = nat maxRetry * length (read_result_lines content)"
proof -
  let ?T = "FailedDownloadFileName @ ''.tmp''"
  let ?w1 = "w\<lparr>files := (files w)(?T \<mapsto> content)\<rparr>"
  let ?ls = "read_result_lines content"
  have cp: "CopyFile e w FailedDownloadFileName ?T = (?w1, None)"
    using assms(1,4) by (simp add: CopyFile_def)
  have ent: "\<And>l. l \<in> set ?ls \<Longrightarrow> well_formed l \<and> files ?w1 (entry_path l) = None
      \<and> mkdir_ok e (filepath_Dir (entry_path l))"
    using assms(7) by simp
  have lt: "(- 1 :: int) < 0" by simp
  obtain w2 where r: "replay_lines e (nat maxRetry) 0 ?ls ?w1 [] (- 1)
      = Replayed w2 ([] @ failure_records e (nat maxRetry) (Suc (calls ?w1)) ?ls) (- 1)"
    and f2: "files w2 = files ?w1"
    using replay_lines_fetch_fails [OF assms(6) lt ent, of ?ls "nat maxRetry" "[]"] by blast
  obtain w3 where rm: "os_Remove e w2 ?T = (w3, True)"
    using assms(2) f2 by (simp add: os_Remove_def)
  have "snd (FixBrokenDownloadFile e maxRetry w)
      = Completed (failure_records e (nat maxRetry) (Suc (calls w)) ?ls)"
    using cp r rm assms(3)
    by (simp add: FixBrokenDownloadFile_def Let_def)
  then show ?thesis
    by (simp add: length_failure_records)
qed

lemma lines_two: "read_result_lines (''2024-01-01 00:00:00|/out/a.mp3|http://x/a.mp3'' @ [LF] @
       ''2024-01-01 00:00:05|/out/b.mp3|http://x/b.mp3'' @ [LF])
   = [''2024-01-01 00:00:00|/out/a.mp3|http://x/a.mp3'', ''2024-01-01 00:00:05|/out/b.mp3|http://x/b.mp3'']"
  by code_simp

theorem always_failing_entries_one_record_per_attempt_witness:
  "snd (FixBrokenDownloadFile env_net_down 2 world_two)
     = Completed [''2024-06-01 12:00:00|/out/a.mp3|http://x/a.mp3'',
                  ''2024-06-01 12:00:00|/out/a.mp3|http://x/a.mp3'',
                  ''2024-06-01 12:00:00|/out/b.mp3|http://x/b.mp3'',
                  ''2024-06-01 12:00:00|/out/b.mp3|http://x/b.mp3'']"
proof -
  let ?c = "''2024-01-01 00:00:00|/out/a.mp3|http://x/a.mp3'' @ [LF] @
       ''2024-01-01 00:00:05|/out/b.mp3|http://x/b.mp3'' @ [LF]"
  have h1: "copy_fault env_net_down = None" "remove_ok env_net_down (FailedDownloadFileName @ ''.tmp'')"
    "truncate_ok env_net_down"
    by (simp_all add: env_net_down_def)
  have h4: "files world_two FailedDownloadFileName = Some ?c"
    by (simp add: world_two_def)
  have h5: "(0::int) < 2" by simp
  have h6: "\<And>n u. writes_nothing (fetch env_net_down n u)"
    by (simp add: env_net_down_def writes_nothing_def)
  have h7: "\<And>l. l \<in> set (read_result_lines ?c) \<Longrightarrow>
           well_formed l \<and> files world_two (entry_path l) = None
           \<and> entry_path l \<noteq> FailedDownloadFileName @ ''.tmp''
           \<and> mkdir_ok env_net_down (filepath_Dir (entry_path l))"
    unfolding lines_two
    by (auto simp: well_formed_def entry_path_def world_two_def FailedDownloadFileName_def
        env_net_down_def)
  have ev: "failure_records env_net_down (nat 2) (Suc (calls world_two)) (read_result_lines ?c)
      = [''2024-06-01 12:00:00|/out/a.mp3|http://x/a.mp3'',
         ''2024-06-01 12:00:00|/out/a.mp3|http://x/a.mp3'',
         ''2024-06-01 12:00:00|/out/b.mp3|http://x/b.mp3'',
         ''2024-06-01 12:00:00|/out/b.mp3|http://x/b.mp3'']"
    unfolding lines_two by code_simp
  show ?thesis
    using always_failing_entries_one_record_per_attempt [OF h1 h4 h5 h6 h7] ev
    by simp
qed

text \<open>
  Claim C2 as it was stated (one record for each failing line, the count unchanged)
  fails: a ledger of one line, replayed with \<open>maxRetry = 2\<close> while the network is
  down, ends with two records.
\<close>

theorem one_entry_two_retries_two_records:
  "read_result_lines (''2024-01-01 00:00:00|/out/a.mp3|http://x/a.mp3'' @ [LF])
     = [''2024-01-01 00:00:00|/out/a.mp3|http://x/a.mp3'']
   \<and> snd (FixBrokenDownloadFile env_net_down 2 world_one)
     = Completed [''2024-06-01 12:00:00|/out/a.mp3|http://x/a.mp3'',
                  ''2024-06-01 12:00:00|/out/a.mp3|http://x/a.mp3'']"
  by code_simp

subsection \<open>An attempt that resolves\<close>






subsection \<open>Where the code departs from the stated behaviour\<close>

text \<open>A pass that reaches its end leaves the ledger empty, whatever
  \<open>resultContainer\<close> holds: nothing is written after \<open>Truncate\<close>.\<close>

lemma completed_pass_empties_ledger:
  assumes "snd (FixBrokenDownloadFile e maxRetry w) = Completed rc"
  shows "files (fst (FixBrokenDownloadFile e maxRetry w)) FailedDownloadFileName = Some []"
  using assms
  by (auto simp: FixBrokenDownloadFile_def Let_def
      split: prod.splits option.splits replay.splits bool.splits if_splits)

text \<open>
  Claim C1 says that a non-empty \<open>resultContainer\<close> is written back to the truncated
  ledger. The code does not: with one entry whose only retry fails, the pass ends with
  one record in \<open>resultContainer\<close> and an empty ledger file.
\<close>

theorem surviving_failure_not_written_back:
  "snd (FixBrokenDownloadFile env_net_down 1 world_one)
     = Completed [''2024-06-01 12:00:00|/out/a.mp3|http://x/a.mp3'']
   \<and> files (fst (FixBrokenDownloadFile env_net_down 1 world_one)) FailedDownloadFileName = Some []"
  by code_simp

text \<open>
  Claim C4 says that no fragment stays at the destination after a failed attempt. On a
  retry the code does not remove it: when the copy breaks after three bytes,
  \<open>NewFixFileDownloader\<close> records the failure and returns with those three bytes at
  the destination.
\<close>

theorem failed_retry_leaves_fragment:
  "snd (NewFixFileDownloader env_copy_breaks world_one ''http://x/a.mp3'' ''/out/a.mp3'' [])
     = [''2024-06-01 12:00:00|/out/a.mp3|http://x/a.mp3'']
   \<and> files (fst (NewFixFileDownloader env_copy_breaks world_one ''http://x/a.mp3'' ''/out/a.mp3'' []))
        ''/out/a.mp3'' = Some ''ID3''"
  by code_simp

text \<open>The first pass does remove it (when the file system lets it): after a failed
  task of \<open>NewFileDownloader\<close> the destination is absent.\<close>

lemma first_pass_failure_removes_fragment:
  assumes "got_fetch e (calls w) url = GotFails msg fragment"
    and "\<not> Contains msg ''Content-Length''"
    and "remove_ok e (filepath_Join path filename)"
    and "filepath_Join path filename \<noteq> FailedDownloadFileName"
  shows "files (fst (NewFileDownloader e url path filename w)) (filepath_Join path filename) = None"
  using assms
  by (cases fragment)
     (simp_all add: NewFileDownloader_def got_Download_def error_text_def Send_def
        ledger_append_def os_Remove_def Let_def)

text \<open>A line with fewer than three fields stops the replay in a panic at its first
  round: \<open>fileInfos[2]\<close> is out of range.\<close>

lemma malformed_line_panics:
  assumes "length (Split brokenLine (CHR ''|'')) < 3" "index \<noteq> lsi"
  shows "retry e index brokenLine (Suc left) w rc lsi = Panicked w"
  using assms by (simp add: Let_def)

text \<open>
  Claim C5 says that a malformed line does not crash the pass and that the other lines
  are still processed. The code panics: with a first line of two fields and
  \<open>maxRetry = 1\<close> the pass ends in the panic, and no fetch was made for the
  well-formed line after it.
\<close>

theorem torn_line_stops_the_pass:
  "snd (FixBrokenDownloadFile env_net_down 1 world_torn) = PassPanicked
   \<and> calls (fst (FixBrokenDownloadFile env_net_down 1 world_torn)) = 0"
  by code_simp

end
